theory Spec2Isabelle
  imports Main "HOL-Library.Sublist"
begin

section \<open>Data model\<close>

text \<open>
  The plugin (\<^verbatim>\<open>plugin.cpp\<close>) adds two primops to the Nix evaluator, \<^verbatim>\<open>importAge\<close> and
  \<^verbatim>\<open>readAge\<close>; both go through \<^verbatim>\<open>resolveAge\<close>. Paths, store paths and file contents
  are byte strings. A \<^verbatim>\<open>SourcePath\<close> is represented by the absolute canonical path it
  holds (\<^verbatim>\<open>encryptedFile.path\<close>), which is also how it is printed in messages.
\<close>

type_synonym Path = string
type_synonym StorePath = string
type_synonym SourcePath = string
type_synonym PosIdx = nat

datatype HashAlgorithm = MD5 | SHA1 | SHA256 | SHA512 | BLAKE3

record Hash =
  algo :: HashAlgorithm
  digest :: string

text \<open>Values of the evaluator, as far as the attribute set of the primops needs them.\<close>

datatype Value =
    VAttrs "(string \<times> PosIdx \<times> Value) list"
  | VString string
  | VPath string
  | VInt int

text \<open>
  Every \<^verbatim>\<open>state.error<EvalError>(...).atPos(pos).debugThrow()\<close> of the source is an
  \<open>EvalError\<close> with its position and message text (without the colour markup the error
  formatter puts around the arguments). \<open>FilesystemError\<close> is an exception of
  \<^verbatim>\<open>std::filesystem::exists\<close> that no handler of the plugin catches; \<open>LibraryError\<close> is an
  error thrown inside a library call (a malformed hash string, a value of the wrong type,
  an unreadable file); \<open>AddTrace\<close> is \<^verbatim>\<open>e.addTrace\<close> followed by the rethrow.
\<close>

datatype error =
    EvalError PosIdx string
  | FilesystemError
  | LibraryError string
  | AddTrace PosIdx string error

text \<open>
  What the plugin reads from its surroundings and the library functions it calls are the
  fields of one record. A call that the source wraps in a handler can fail:
  \<^verbatim>\<open>getHome\<close> (\<open>None\<close> when it throws), \<^verbatim>\<open>std::filesystem::exists\<close> (\<open>None\<close> when it throws),
  \<^verbatim>\<open>runProgram\<close> (\<open>Inl\<close> the text of the \<^verbatim>\<open>ExecError\<close>, \<open>Inr\<close> the standard output).
  \<^verbatim>\<open>pathAccessible\<close> is the library's permission-tolerant existence test, a predicate.
  \<open>sha256\<close> is the digest computed by \<^verbatim>\<open>hashString(HashAlgorithm::SHA256, _)\<close>,
  \<open>to_string_SRI\<close> is \<^verbatim>\<open>Hash::to_string(HashFormat::SRI, true)\<close>, \<open>substitute\<close> is what
  the configured substituters can deliver for a store path.
\<close>

record world =
  getEnv :: "string \<Rightarrow> string option"
  getHome :: "string option"
  fs_exists :: "Path \<Rightarrow> bool option"
  pathAccessible :: "Path \<Rightarrow> bool"
  AGE_PATH :: string
  runProgram :: "string \<Rightarrow> string list \<Rightarrow> string + string"
  sha256 :: "string \<Rightarrow> string"
  to_string_SRI :: "Hash \<Rightarrow> string"
  makeFixedOutputPath :: "string \<Rightarrow> Hash \<Rightarrow> StorePath"
  substitute :: "StorePath \<Rightarrow> string option"
  pureEval :: bool
  forceAttrs :: "Value \<Rightarrow> error + (string \<times> PosIdx \<times> Value) list"
  coerceToPath :: "Value \<Rightarrow> error + SourcePath"
  forceStringNoCtx :: "Value \<Rightarrow> error + string"
  newHashAllowEmpty :: "string \<Rightarrow> HashAlgorithm option \<Rightarrow> error + Hash"
  evalFile :: "string \<Rightarrow> error + Value"

text \<open>
  The effectful calls made by \<^verbatim>\<open>resolveAge\<close> and by the two primops, in program order:
  \<^verbatim>\<open>ensurePath\<close> (line 109), \<^verbatim>\<open>discoverIdentities\<close> (line 125), the existence test of the
  ciphertext (line 156), \<^verbatim>\<open>decryptWithAge\<close> (line 168), \<^verbatim>\<open>addToStoreFromDump\<close> (line 197),
  \<^verbatim>\<open>warn\<close> (line 207), \<^verbatim>\<open>allowPath\<close>, \<^verbatim>\<open>readFile\<close> and \<^verbatim>\<open>evalFile\<close> of the primops.
\<close>

datatype event =
    EnsurePath StorePath
  | DiscoverIdentities
  | CiphertextExists Path
  | Decrypt Path "Path list"
  | AddToStore string string
  | Warn string
  | AllowPath StorePath
  | ReadFile StorePath
  | EvalFile StorePath

text \<open>
  The mutable part: the valid paths of the local store with their (flat) contents, and
  the calls made so far.
\<close>

record state =
  store :: "(StorePath \<times> string) list"
  trace :: "event list"

definition emit :: "event \<Rightarrow> state \<Rightarrow> state" where
  "emit e s = s\<lparr>trace := trace s @ [e]\<rparr>"

section \<open>The content store\<close>

definition hashString :: "world \<Rightarrow> string \<Rightarrow> Hash" where
  "hashString w content = \<lparr>algo = SHA256, digest = sha256 w content\<rparr>"

text \<open>
  Modelled from the spec: the store operations \<^verbatim>\<open>ensurePath\<close> and \<^verbatim>\<open>addToStoreFromDump\<close>
  belong to the Nix store library, which is not part of the sources. \<open>ensurePath\<close>
  follows section 4.3, \<^emph>\<open>ensure\<close>: it succeeds and makes the content available locally
  if the path is present or obtainable from a remote cache, and fails otherwise (the
  \<^verbatim>\<open>Error\<close> that the source catches).
\<close>

definition ensurePath :: "world \<Rightarrow> state \<Rightarrow> StorePath \<Rightarrow> bool \<times> state" where
  "ensurePath w s p =
     (let s1 = emit (EnsurePath p) s in
      case map_of (store s1) p of
        Some c \<Rightarrow> (True, s1)
      | None \<Rightarrow>
          (case substitute w p of
             Some c \<Rightarrow> (True, s1\<lparr>store := store s1 @ [(p, c)]\<rparr>)
           | None \<Rightarrow> (False, s1)))"

text \<open>
  Modelled from the spec: section 4.3, \<^emph>\<open>commit\<close>: the content address is derived from the
  name and the SHA-256 hash of the content (flat ingestion, no references: the
  fixed-output path of that hash), and the bytes are stored if the path is not already
  present.
\<close>

definition addToStoreFromDump :: "world \<Rightarrow> state \<Rightarrow> string \<Rightarrow> string \<Rightarrow> StorePath \<times> state" where
  "addToStoreFromDump w s name content =
     (let s1 = emit (AddToStore name content) s;
          p = makeFixedOutputPath w name (hashString w content)
      in case map_of (store s1) p of
           Some c \<Rightarrow> (p, s1)
         | None \<Rightarrow> (p, s1\<lparr>store := store s1 @ [(p, content)]\<rparr>))"

section \<open>Identity discovery\<close>

record IdentityDiscovery =
  candidates :: "Path list"
  usable :: "Path list"

text \<open>\<^verbatim>\<open>operator/\<close> of \<^verbatim>\<open>std::filesystem::path\<close> for a relative right-hand side.\<close>

definition path_join :: "Path \<Rightarrow> Path \<Rightarrow> Path" where
  "path_join a b =
     (if a = [] then b
      else if last a = CHR ''/'' then a @ b
      else a @ ''/'' @ b)"

definition discoverIdentities :: "world \<Rightarrow> IdentityDiscovery" where
  "discoverIdentities w =
     (let cands =
        (case getEnv w ''AGE_IDENTITY_FILE'' of
           Some env \<Rightarrow> [env]
         | None \<Rightarrow>
             (case getHome w of
                Some home \<Rightarrow>
                  [path_join (path_join home ''.ssh'') ''id_ed25519'',
                   path_join (path_join home ''.ssh'') ''id_rsa'']
              | None \<Rightarrow> []))
      in \<lparr>candidates = cands, usable = filter (pathAccessible w) cands\<rparr>)"

definition decryptWithAge :: "world \<Rightarrow> Path \<Rightarrow> Path list \<Rightarrow> string + string" where
  "decryptWithAge w encryptedPath identities =
     runProgram w (AGE_PATH w)
       ([''--decrypt''] @ concat (map (\<lambda>id. [''-i'', id]) identities) @ [encryptedPath])"

definition ends_with :: "string \<Rightarrow> string \<Rightarrow> bool" where
  "ends_with s x = (length x \<le> length s \<and> drop (length s - length x) s = x)"

definition stripAgeSuffix :: "string \<Rightarrow> string" where
  "stripAgeSuffix name =
     (if ends_with name ''.age'' then take (length name - 4) name else name)"

definition describeCandidate :: "world \<Rightarrow> Path \<Rightarrow> string" where
  "describeCandidate w p =
     (case fs_exists w p of
        None \<Rightarrow> p @ '' (inaccessible)''
      | Some False \<Rightarrow> p @ '' (not found)''
      | Some True \<Rightarrow>
          if \<not> pathAccessible w p then p @ '' (not readable)''
          else p @ '' (found)'')"

text \<open>The loop of lines 133 to 137, from index \<open>i\<close> with the text built so far.\<close>

function detail_loop :: "world \<Rightarrow> Path list \<Rightarrow> nat \<Rightarrow> string \<Rightarrow> string" where
  "detail_loop w cands i detail =
     (if i < length cands then
        detail_loop w cands (i + 1)
          ((if i > 0 then detail @ '', '' else detail) @ describeCandidate w (cands ! i))
      else detail)"
  by pat_completeness auto
termination
  by (relation "measure (\<lambda>(w, cands, i, detail). length cands - i)") auto

declare detail_loop.simps [simp del]

section \<open>Resolution\<close>

text \<open>An argument printed between single quotes, as in \<^verbatim>\<open>'%s'\<close>.\<close>

definition quoted :: "string \<Rightarrow> string" where
  "quoted x = [CHR 0x27] @ x @ [CHR 0x27]"

text \<open>
  \<^verbatim>\<open>CanonPath::baseName\<close>: nothing for the root, otherwise what follows the last slash.
\<close>

definition baseName :: "SourcePath \<Rightarrow> string option" where
  "baseName p =
     (if p = ''/'' then None
      else Some (rev (takeWhile (\<lambda>c. c \<noteq> CHR ''/'') (rev p))))"

text \<open>Lines 90 and 91: the name under which the plaintext is stored.\<close>

definition derivedName :: "SourcePath \<Rightarrow> string" where
  "derivedName encryptedFile =
     stripAgeSuffix (case baseName encryptedFile of Some b \<Rightarrow> b | None \<Rightarrow> ''source'')"

text \<open>
  Lines 125 to 213 of \<^verbatim>\<open>resolveAge\<close>: what runs when the first conditional (lines 93 to
  123) neither returns nor throws.
\<close>

definition resolveAge_decrypt ::
  "world \<Rightarrow> state \<Rightarrow> PosIdx \<Rightarrow> string \<Rightarrow> SourcePath \<Rightarrow> Hash option \<Rightarrow> string
     \<Rightarrow> (error + StorePath) \<times> state" where
  \<open>resolveAge_decrypt w s pos who encryptedFile expectedHash name =
     (let discovery = discoverIdentities w;
          s1 = emit DiscoverIdentities s
      in
      if usable discovery = [] then
        (let detail =
           (if candidates discovery = [] then
              ''no candidate paths (could not determine home directory)''
            else detail_loop w (candidates discovery) 0 ''checked: '');
             msg = who @ '': no usable identity found. '' @ detail @ ''. ''
               @ ''Set AGE_IDENTITY_FILE or ensure a key exists at a default path.'';
             msg1 =
           (if expectedHash \<noteq> None then
              msg @ '' The hash-locked store path is not present and no identity was found to decrypt.''
                @ '' You may need to run an initial impure evaluation on a machine with the identity,''
                @ '' or populate the store path via substitution.''
            else msg)
         in (Inl (EvalError pos msg1), s1))
      else
        (let encryptedPath = encryptedFile;
             s2 = emit (CiphertextExists encryptedPath) s1
         in
         case fs_exists w encryptedPath of
           None \<Rightarrow> (Inl FilesystemError, s2)
         | Some False \<Rightarrow>
             (Inl (EvalError pos
                (who @ '': file '' @ quoted encryptedFile @ '' does not exist. ''
                   @ ''If you are using flakes, ensure the file has been added to git.'')), s2)
         | Some True \<Rightarrow>
             (let s3 = emit (Decrypt encryptedPath (usable discovery)) s2 in
              case decryptWithAge w encryptedPath (usable discovery) of
                Inl what \<Rightarrow>
                  (Inl (EvalError pos
                     (who @ '': age failed to decrypt '' @ quoted encryptedFile @ '': '' @ what)), s3)
              | Inr content \<Rightarrow>
                  (let actualHash = hashString w content in
                   if expectedHash \<noteq> None \<and> Some actualHash \<noteq> expectedHash then
                     (Inl (EvalError pos
                        (who @ '': hash mismatch for '' @ quoted encryptedFile @ ''.\<newline>''
                           @ ''  specified: '' @ to_string_SRI w (the expectedHash) @ ''\<newline>''
                           @ ''  got:       '' @ to_string_SRI w actualHash @ ''\<newline>''
                           @ ''(did you update the encrypted file without updating the hash?)'')), s3)
                   else
                     (case addToStoreFromDump w s3 name content of
                        (storePath, s4) \<Rightarrow>
                          (Inr storePath,
                           if expectedHash = None then
                             emit (Warn
                               (who @ '': hash for '' @ quoted encryptedFile @ '' is:\<newline>  hash = "''
                                  @ to_string_SRI w actualHash @ ''";'')) s4
                           else s4))))))\<close>

definition resolveAge ::
  "world \<Rightarrow> state \<Rightarrow> PosIdx \<Rightarrow> string \<Rightarrow> SourcePath \<Rightarrow> Hash option
     \<Rightarrow> (error + StorePath) \<times> state" where
  \<open>resolveAge w s pos who encryptedFile expectedHash =
     (let name = derivedName encryptedFile
      in
      case expectedHash of
        Some h \<Rightarrow>
          if algo h \<noteq> SHA256 then
            (Inl (EvalError pos (who @ '' only supports SHA-256 hashes'')), s)
          else
            (let expectedPath = makeFixedOutputPath w name h in
             case ensurePath w s expectedPath of
               (True, s1) \<Rightarrow> (Inr expectedPath, s1)
             | (False, s1) \<Rightarrow> resolveAge_decrypt w s1 pos who encryptedFile expectedHash name)
      | None \<Rightarrow>
          if pureEval w then
            (Inl (EvalError pos
               (who @ '' requires 'hash' in pure evaluation mode. ''
                  @ ''Run with '--impure' for first-time decryption, ''
                  @ ''then add the printed hash to your expression.'')), s)
          else resolveAge_decrypt w s pos who encryptedFile expectedHash name)\<close>

section \<open>The primops\<close>

text \<open>
  The loop of \<^verbatim>\<open>parseAgeAttrs\<close> over the attributes (name, position, value) of the
  argument, with the two optional results found so far.
\<close>

fun parseAgeAttrs_loop ::
  "world \<Rightarrow> string \<Rightarrow> (string \<times> PosIdx \<times> Value) list \<Rightarrow> SourcePath option \<Rightarrow> Hash option
     \<Rightarrow> error + SourcePath option \<times> Hash option" where
  "parseAgeAttrs_loop w who [] file hash = Inr (file, hash)"
| "parseAgeAttrs_loop w who ((attrName, attrPos, attrValue) # attrs) file hash =
     (if attrName = ''file'' then
        (case coerceToPath w attrValue of
           Inl e \<Rightarrow> Inl e
         | Inr p \<Rightarrow> parseAgeAttrs_loop w who attrs (Some p) hash)
      else if attrName = ''hash'' then
        (case forceStringNoCtx w attrValue of
           Inl e \<Rightarrow> Inl e
         | Inr s \<Rightarrow>
             if s \<noteq> [] then
               (case newHashAllowEmpty w s (Some SHA256) of
                  Inl e \<Rightarrow> Inl e
                | Inr h \<Rightarrow> parseAgeAttrs_loop w who attrs file (Some h))
             else parseAgeAttrs_loop w who attrs file hash)
      else
        Inl (EvalError attrPos
          (''unsupported attribute '' @ quoted attrName @ '' in '' @ quoted who)))"

record AgeAttrs =
  age_file :: SourcePath
  age_hash :: "Hash option"

definition parseAgeAttrs :: "world \<Rightarrow> PosIdx \<Rightarrow> Value \<Rightarrow> string \<Rightarrow> error + AgeAttrs" where
  "parseAgeAttrs w pos arg who =
     (case forceAttrs w arg of
        Inl e \<Rightarrow> Inl e
      | Inr attrs \<Rightarrow>
          (case parseAgeAttrs_loop w who attrs None None of
             Inl e \<Rightarrow> Inl e
           | Inr (None, h) \<Rightarrow>
               Inl (EvalError pos (quoted ''file'' @ '' attribute is required in '' @ quoted who))
           | Inr (Some f, h) \<Rightarrow> Inr \<lparr>age_file = f, age_hash = h\<rparr>))"

text \<open>
  \<^verbatim>\<open>prim_importAge\<close>: the result is the value of the decrypted file. Reading the file
  of a store path gives the content the store holds for it.
\<close>

definition prim_importAge :: "world \<Rightarrow> state \<Rightarrow> PosIdx \<Rightarrow> Value \<Rightarrow> (error + Value) \<times> state" where
  "prim_importAge w s pos arg =
     (case parseAgeAttrs w pos arg ''builtins.importAge'' of
        Inl e \<Rightarrow> (Inl e, s)
      | Inr a \<Rightarrow>
          (case resolveAge w s pos ''builtins.importAge'' (age_file a) (age_hash a) of
             (Inl e, s1) \<Rightarrow> (Inl e, s1)
           | (Inr storePath, s1) \<Rightarrow>
               (let s2 = emit (AllowPath storePath) s1;
                    s3 = emit (EvalFile storePath) s2;
                    traced = AddTrace pos
                      (''while evaluating the decrypted content from '' @ quoted ''builtins.importAge'')
                in
                case map_of (store s3) storePath of
                  None \<Rightarrow> (Inl (traced (LibraryError ''cannot read file'')), s3)
                | Some content \<Rightarrow>
                    (case evalFile w content of
                       Inl e \<Rightarrow> (Inl (traced e), s3)
                     | Inr v \<Rightarrow> (Inr v, s3)))))"

text \<open>\<^verbatim>\<open>prim_readAge\<close>: the result is the string that \<^verbatim>\<open>v.mkString\<close> receives.\<close>

definition prim_readAge :: "world \<Rightarrow> state \<Rightarrow> PosIdx \<Rightarrow> Value \<Rightarrow> (error + string) \<times> state" where
  "prim_readAge w s pos arg =
     (case parseAgeAttrs w pos arg ''builtins.readAge'' of
        Inl e \<Rightarrow> (Inl e, s)
      | Inr a \<Rightarrow>
          (case resolveAge w s pos ''builtins.readAge'' (age_file a) (age_hash a) of
             (Inl e, s1) \<Rightarrow> (Inl e, s1)
           | (Inr storePath, s1) \<Rightarrow>
               (let s2 = emit (AllowPath storePath) s1;
                    s3 = emit (ReadFile storePath) s2
                in
                case map_of (store s3) storePath of
                  None \<Rightarrow> (Inl (LibraryError ''cannot read file''), s3)
                | Some content \<Rightarrow>
                    if CHR 0x00 \<in> set content then
                      (Inl (EvalError pos
                         (''builtins.readAge: the decrypted contents of '' @ quoted (age_file a)
                            @ '' cannot be represented as a Nix string'')), s3)
                    else (Inr content, s3))))"

section \<open>The fixture of the test suite\<close>

text \<open>
  The machine of \<^verbatim>\<open>tests/plugin.nix\<close>: an age key at \<^verbatim>\<open>/tmp/test/key.txt\<close>, named by
  \<^verbatim>\<open>AGE_IDENTITY_FILE\<close>, and the ciphertexts \<^verbatim>\<open>plain.txt.age\<close> (of \<^verbatim>\<open>hello from age\<close>)
  and \<^verbatim>\<open>null.bin.age\<close> (of bytes with an embedded NUL). The digest of the fixture is a
  stand-in (the reversed content), printed after \<^verbatim>\<open>sha256-\<close>; store paths show the
  digest and the name.
\<close>

definition test_files :: "Path list" where
  "test_files = [''/tmp/test/key.txt'', ''/tmp/test/plain.txt.age'', ''/tmp/test/null.bin.age'']"

definition test_age :: "string \<Rightarrow> string list \<Rightarrow> string + string" where
  "test_age prog args =
     (if args = [''--decrypt'', ''-i'', ''/tmp/test/key.txt'', ''/tmp/test/plain.txt.age'']
      then Inr ''hello from age''
      else if args = [''--decrypt'', ''-i'', ''/tmp/test/key.txt'', ''/tmp/test/null.bin.age'']
      then Inr (''has'' @ [CHR 0x00] @ ''null'')
      else Inl ''age: error: no identity matched any of the recipients'')"

definition test_world :: world where
  "test_world =
     \<lparr>getEnv = (\<lambda>v. if v = ''AGE_IDENTITY_FILE'' then Some ''/tmp/test/key.txt'' else None),
      getHome = Some ''/root'',
      fs_exists = (\<lambda>p. Some (p \<in> set test_files)),
      pathAccessible = (\<lambda>p. p \<in> set test_files),
      AGE_PATH = ''age'',
      runProgram = test_age,
      sha256 = rev,
      to_string_SRI = (\<lambda>h. ''sha256-'' @ digest h),
      makeFixedOutputPath = (\<lambda>name h. ''/nix/store/'' @ digest h @ ''-'' @ name),
      substitute = (\<lambda>p. None),
      pureEval = False,
      forceAttrs = (\<lambda>v. case v of VAttrs as \<Rightarrow> Inr as | _ \<Rightarrow> Inl (LibraryError ''expected a set'')),
      coerceToPath = (\<lambda>v. case v of VPath p \<Rightarrow> Inr p | _ \<Rightarrow> Inl (LibraryError ''expected a path'')),
      forceStringNoCtx =
        (\<lambda>v. case v of VString x \<Rightarrow> Inr x | _ \<Rightarrow> Inl (LibraryError ''expected a string'')),
      newHashAllowEmpty =
        (\<lambda>x a. if take 7 x = ''sha256-'' then Inr \<lparr>algo = SHA256, digest = drop 7 x\<rparr>
               else Inl (LibraryError ''invalid SRI hash'')),
      evalFile = (\<lambda>content. Inr (VString content))\<rparr>"

definition empty_state :: state where
  "empty_state = \<lparr>store = [], trace = []\<rparr>"

section \<open>The purity flag is read in one place only\<close>

lemma describeCandidate_pureEval:
  "describeCandidate (w\<lparr>pureEval := b\<rparr>) p = describeCandidate w p"
  by (simp add: describeCandidate_def)

lemma detail_loop_pureEval:
  "detail_loop (w\<lparr>pureEval := b\<rparr>) cands i detail = detail_loop w cands i detail"
proof (induction w cands i detail rule: detail_loop.induct)
  case (1 w cands i detail)
  show ?case
  proof (cases "i < length cands")
    case True
    show ?thesis
      using "1"[OF True] True
      by (subst detail_loop.simps, subst (2) detail_loop.simps)
         (simp add: describeCandidate_pureEval)
  next
    case False
    then show ?thesis by (subst detail_loop.simps, subst (2) detail_loop.simps) simp
  qed
qed

lemma ensurePath_pureEval:
  "ensurePath (w\<lparr>pureEval := b\<rparr>) s p = ensurePath w s p"
  by (simp add: ensurePath_def Let_def split: option.splits)

lemma discoverIdentities_pureEval:
  "discoverIdentities (w\<lparr>pureEval := b\<rparr>) = discoverIdentities w"
  by (simp add: discoverIdentities_def cong: option.case_cong)

lemma decryptWithAge_pureEval:
  "decryptWithAge (w\<lparr>pureEval := b\<rparr>) p ids = decryptWithAge w p ids"
  by (simp add: decryptWithAge_def)

lemma hashString_pureEval:
  "hashString (w\<lparr>pureEval := b\<rparr>) c = hashString w c"
  by (simp add: hashString_def)

lemma addToStoreFromDump_pureEval:
  "addToStoreFromDump (w\<lparr>pureEval := b\<rparr>) s n c = addToStoreFromDump w s n c"
  by (simp add: addToStoreFromDump_def hashString_def)

lemma fields_pureEval:
  "fs_exists (w\<lparr>pureEval := b\<rparr>) = fs_exists w"
  "to_string_SRI (w\<lparr>pureEval := b\<rparr>) = to_string_SRI w"
  "makeFixedOutputPath (w\<lparr>pureEval := b\<rparr>) = makeFixedOutputPath w"
  by simp_all

lemma resolveAge_decrypt_pureEval:
  "resolveAge_decrypt (w\<lparr>pureEval := b\<rparr>) s pos who f eh name = resolveAge_decrypt w s pos who f eh name"
  unfolding resolveAge_decrypt_def discoverIdentities_pureEval detail_loop_pureEval
    decryptWithAge_pureEval hashString_pureEval addToStoreFromDump_pureEval fields_pureEval
  by (rule refl)

section \<open>The first conditional: unsupported algorithm and purity gate\<close>

text \<open>
  C7: when the expected hash is tagged with an algorithm other than SHA-256,
  \<^verbatim>\<open>resolveAge\<close> fails with the configuration error, and the state it leaves is the state
  it was called in: no cache check, no identity discovery, no decryption has taken place.
\<close>

theorem unsupported_algorithm_fails_first:
  "algo h \<noteq> SHA256 \<Longrightarrow>
     resolveAge w s pos who encryptedFile (Some h) =
       (Inl (EvalError pos (who @ '' only supports SHA-256 hashes'')), s)"
  by (simp add: resolveAge_def)

theorem unsupported_algorithm_fails_first_witness:
  "resolveAge test_world empty_state 7 ''builtins.readAge'' ''/tmp/test/plain.txt.age''
       (Some \<lparr>algo = SHA512, digest = ''ega morf olleh''\<rparr>) =
     (Inl (EvalError 7 ''builtins.readAge only supports SHA-256 hashes''), empty_state)"
  using unsupported_algorithm_fails_first
    [of "\<lparr>algo = SHA512, digest = ''ega morf olleh''\<rparr>" test_world empty_state 7
       "''builtins.readAge''" "''/tmp/test/plain.txt.age''"]
  by simp

lemma resolveAge_Some_pureEval:
  "resolveAge (w\<lparr>pureEval := b\<rparr>) s pos who encryptedFile (Some h) =
     resolveAge w s pos who encryptedFile (Some h)"
  by (simp add: resolveAge_def Let_def resolveAge_decrypt_pureEval ensurePath_pureEval
      cong: prod.case_cong bool.case_cong)

text \<open>
  C3: with no expected hash in pure evaluation mode, \<^verbatim>\<open>resolveAge\<close> fails with the
  purity error, which tells the caller to supply a hash or to run impurely, and leaves
  the state untouched (nothing has been discovered, probed or read). With an expected
  hash the purity flag has no influence on the resolution at all, whether the cache
  check hits or misses.
\<close>

theorem purity_gate:
  \<open>(pureEval w \<longrightarrow>
      resolveAge w s pos who encryptedFile None =
        (Inl (EvalError pos
           (who @ '' requires 'hash' in pure evaluation mode. ''
              @ ''Run with '--impure' for first-time decryption, ''
              @ ''then add the printed hash to your expression.'')), s))
   \<and> resolveAge (w\<lparr>pureEval := b\<rparr>) s pos who encryptedFile (Some h) =
       resolveAge w s pos who encryptedFile (Some h)\<close>
proof
  show \<open>pureEval w \<longrightarrow>
      resolveAge w s pos who encryptedFile None =
        (Inl (EvalError pos
           (who @ '' requires 'hash' in pure evaluation mode. ''
              @ ''Run with '--impure' for first-time decryption, ''
              @ ''then add the printed hash to your expression.'')), s)\<close>
    by (simp add: resolveAge_def)
  show "resolveAge (w\<lparr>pureEval := b\<rparr>) s pos who encryptedFile (Some h) =
       resolveAge w s pos who encryptedFile (Some h)"
    by (rule resolveAge_Some_pureEval)
qed

theorem purity_gate_witness:
  \<open>resolveAge (test_world\<lparr>pureEval := True\<rparr>) empty_state 7 ''builtins.readAge''
       ''/tmp/test/plain.txt.age'' None =
     (Inl (EvalError 7
        (''builtins.readAge requires 'hash' in pure evaluation mode. ''
           @ ''Run with '--impure' for first-time decryption, ''
           @ ''then add the printed hash to your expression.'')), empty_state)\<close>
  using purity_gate
    [of "test_world\<lparr>pureEval := True\<rparr>" empty_state 7 "''builtins.readAge''"
       "''/tmp/test/plain.txt.age''"]
  by simp

section \<open>The cache check\<close>

lemma ensurePath_trace: "trace (snd (ensurePath w s p)) = trace s @ [EnsurePath p]"
  by (simp add: ensurePath_def emit_def Let_def split: option.splits)

lemma ensurePath_hit_iff:
  "fst (ensurePath w s p) \<longleftrightarrow> map_of (store s) p \<noteq> None \<or> substitute w p \<noteq> None"
  by (auto simp: ensurePath_def emit_def Let_def split: option.splits)

lemma map_of_snoc:
  "map_of (xs @ [(p, c)]) q =
     (case map_of xs q of Some v \<Rightarrow> Some v | None \<Rightarrow> if q = p then Some c else None)"
  by (simp add: map_add_def split: option.splits)

lemma ensurePath_hit_present:
  "fst (ensurePath w s p) \<Longrightarrow> map_of (store (snd (ensurePath w s p))) p \<noteq> None"
  by (auto simp: ensurePath_def emit_def Let_def map_of_snoc simp del: map_of_append
      split: option.splits)

lemma ensurePath_collaborators:
  "ensurePath (w\<lparr>getEnv := g, getHome := hm, pathAccessible := a, fs_exists := e, runProgram := r\<rparr>) s p
     = ensurePath w s p"
  by (simp add: ensurePath_def Let_def split: option.splits)

text \<open>
  C1: when a SHA-256 hash is supplied and the fixed-output path derived from the name and
  the hash can be ensured (it is in the store, or a substituter delivers it),
  \<^verbatim>\<open>resolveAge\<close> returns that path, which the store then holds. The only call it makes is
  \<^verbatim>\<open>ensurePath\<close>: no identity discovery, no existence test of the ciphertext, no
  decryption. Accordingly the outcome is the same whatever the environment, the home
  directory, the filesystem and the decryption program are.
\<close>

theorem cache_hit_short_circuit:
  assumes "algo h = SHA256"
    and "fst (ensurePath w s (makeFixedOutputPath w (derivedName encryptedFile) h))"
  shows "resolveAge w s pos who encryptedFile (Some h) =
           (Inr (makeFixedOutputPath w (derivedName encryptedFile) h),
            snd (ensurePath w s (makeFixedOutputPath w (derivedName encryptedFile) h)))
         \<and> trace (snd (ensurePath w s (makeFixedOutputPath w (derivedName encryptedFile) h))) =
             trace s @ [EnsurePath (makeFixedOutputPath w (derivedName encryptedFile) h)]
         \<and> map_of (store (snd (ensurePath w s (makeFixedOutputPath w (derivedName encryptedFile) h))))
             (makeFixedOutputPath w (derivedName encryptedFile) h) \<noteq> None
         \<and> resolveAge
             (w\<lparr>getEnv := g, getHome := hm, pathAccessible := a, fs_exists := e, runProgram := r\<rparr>)
             s pos who encryptedFile (Some h) =
           resolveAge w s pos who encryptedFile (Some h)"
proof -
  let ?p = "makeFixedOutputPath w (derivedName encryptedFile) h"
  let ?w = "w\<lparr>getEnv := g, getHome := hm, pathAccessible := a, fs_exists := e, runProgram := r\<rparr>"
  obtain s1 where e1: "ensurePath w s ?p = (True, s1)"
    using assms(2) by (cases "ensurePath w s ?p") auto
  have r1: "resolveAge w s pos who encryptedFile (Some h) = (Inr ?p, s1)"
    using assms(1) e1 by (simp add: resolveAge_def Let_def)
  have e2: "ensurePath ?w s ?p = (True, s1)"
    using e1 by (simp only: ensurePath_collaborators)
  have r2: "resolveAge ?w s pos who encryptedFile (Some h) = (Inr ?p, s1)"
    using assms(1) e2 by (simp add: resolveAge_def Let_def)
  show ?thesis
    using r1 r2 e1 ensurePath_trace[of w s ?p] ensurePath_hit_present[OF assms(2)]
    by simp
qed

theorem cache_hit_short_circuit_witness:
  "resolveAge test_world
       \<lparr>store = [(''/nix/store/ega morf olleh-plain.txt'', ''hello from age'')], trace = []\<rparr>
       7 ''builtins.readAge'' ''/tmp/test/plain.txt.age''
       (Some \<lparr>algo = SHA256, digest = ''ega morf olleh''\<rparr>) =
     (Inr ''/nix/store/ega morf olleh-plain.txt'',
      \<lparr>store = [(''/nix/store/ega morf olleh-plain.txt'', ''hello from age'')],
       trace = [EnsurePath ''/nix/store/ega morf olleh-plain.txt'']\<rparr>)"
  using cache_hit_short_circuit
    [of "\<lparr>algo = SHA256, digest = ''ega morf olleh''\<rparr>" test_world
       "\<lparr>store = [(''/nix/store/ega morf olleh-plain.txt'', ''hello from age'')], trace = []\<rparr>"
       "''/tmp/test/plain.txt.age''" 7 "''builtins.readAge''"]
  by (simp add: test_world_def derivedName_def baseName_def stripAgeSuffix_def ends_with_def
      ensurePath_def emit_def)

section \<open>Identity discovery\<close>

text \<open>
  C6: the candidates are the single path named by \<^verbatim>\<open>AGE_IDENTITY_FILE\<close> when it is set;
  otherwise the two default keys under the home directory, \<^verbatim>\<open>.ssh/id_ed25519\<close> before
  \<^verbatim>\<open>.ssh/id_rsa\<close>, or none when the home directory cannot be determined. The usable
  identities are the accessible candidates, in candidate order; the function returns its
  record in every case, also with no usable identity.
\<close>

theorem discoverIdentities_candidates:
  "(getEnv w ''AGE_IDENTITY_FILE'' = Some env \<longrightarrow>
      candidates (discoverIdentities w) = [env])
   \<and> (getEnv w ''AGE_IDENTITY_FILE'' = None \<and> getHome w = Some home \<longrightarrow>
      candidates (discoverIdentities w) =
        [path_join (path_join home ''.ssh'') ''id_ed25519'',
         path_join (path_join home ''.ssh'') ''id_rsa''])
   \<and> (getEnv w ''AGE_IDENTITY_FILE'' = None \<and> getHome w = None \<longrightarrow>
      candidates (discoverIdentities w) = [])
   \<and> usable (discoverIdentities w) =
       filter (pathAccessible w) (candidates (discoverIdentities w))"
  by (simp add: discoverIdentities_def Let_def)

theorem discoverIdentities_candidates_witness:
  "discoverIdentities test_world =
     \<lparr>candidates = [''/tmp/test/key.txt''], usable = [''/tmp/test/key.txt'']\<rparr>
   \<and> discoverIdentities (test_world\<lparr>getEnv := (\<lambda>v. None)\<rparr>) =
     \<lparr>candidates = [''/root/.ssh/id_ed25519'', ''/root/.ssh/id_rsa''], usable = []\<rparr>
   \<and> discoverIdentities (test_world\<lparr>getEnv := (\<lambda>v. None), getHome := None\<rparr>) =
     \<lparr>candidates = [], usable = []\<rparr>"
  using discoverIdentities_candidates [of test_world "''/tmp/test/key.txt''" "''/root''"]
    discoverIdentities_candidates
      [of "test_world\<lparr>getEnv := (\<lambda>v. None)\<rparr>" "''/tmp/test/key.txt''" "''/root''"]
    discoverIdentities_candidates
      [of "test_world\<lparr>getEnv := (\<lambda>v. None), getHome := None\<rparr>" "''/tmp/test/key.txt''" "''/root''"]
  by (simp add: test_world_def test_files_def path_join_def IdentityDiscovery.equality)

section \<open>The branches of the decryption path\<close>

lemma resolveAge_decrypt_no_identity:
  assumes "usable (discoverIdentities w) = []"
  shows \<open>resolveAge_decrypt w s pos who f eh name =
    (Inl (EvalError pos
       (who @ '': no usable identity found. ''
          @ (if candidates (discoverIdentities w) = [] then
               ''no candidate paths (could not determine home directory)''
             else detail_loop w (candidates (discoverIdentities w)) 0 ''checked: '')
          @ ''. Set AGE_IDENTITY_FILE or ensure a key exists at a default path.''
          @ (if eh \<noteq> None then
               '' The hash-locked store path is not present and no identity was found to decrypt.''
                 @ '' You may need to run an initial impure evaluation on a machine with the identity,''
                 @ '' or populate the store path via substitution.''
             else []))),
     emit DiscoverIdentities s)\<close>
  using assms by (simp add: resolveAge_decrypt_def Let_def)

lemma resolveAge_decrypt_mismatch:
  assumes "usable (discoverIdentities w) \<noteq> []"
    and "fs_exists w f = Some True"
    and "decryptWithAge w f (usable (discoverIdentities w)) = Inr content"
    and "hashString w content \<noteq> h"
  shows \<open>resolveAge_decrypt w s pos who f (Some h) name =
    (Inl (EvalError pos
       (who @ '': hash mismatch for '' @ quoted f @ ''.\<newline>''
          @ ''  specified: '' @ to_string_SRI w h @ ''\<newline>''
          @ ''  got:       '' @ to_string_SRI w (hashString w content) @ ''\<newline>''
          @ ''(did you update the encrypted file without updating the hash?)'')),
     emit (Decrypt f (usable (discoverIdentities w)))
       (emit (CiphertextExists f) (emit DiscoverIdentities s)))\<close>
  using assms by (simp add: resolveAge_decrypt_def Let_def)

lemma resolveAge_decrypt_commit:
  assumes "usable (discoverIdentities w) \<noteq> []"
    and "fs_exists w f = Some True"
    and "decryptWithAge w f (usable (discoverIdentities w)) = Inr content"
    and "eh = None \<or> eh = Some (hashString w content)"
  shows \<open>resolveAge_decrypt w s pos who f eh name =
    (Inr (fst (addToStoreFromDump w
            (emit (Decrypt f (usable (discoverIdentities w)))
               (emit (CiphertextExists f) (emit DiscoverIdentities s))) name content)),
     (if eh = None then
        emit (Warn (who @ '': hash for '' @ quoted f @ '' is:\<newline>  hash = "''
                      @ to_string_SRI w (hashString w content) @ ''";''))
      else id)
       (snd (addToStoreFromDump w
            (emit (Decrypt f (usable (discoverIdentities w)))
               (emit (CiphertextExists f) (emit DiscoverIdentities s))) name content)))\<close>
  using assms by (auto simp add: resolveAge_decrypt_def Let_def split: prod.splits)


lemma emit_emit_record:
  "emit e s = s\<lparr>trace := trace s @ [e]\<rparr>"
  by (simp add: emit_def)

lemma ensurePath_miss:
  "\<not> fst (ensurePath w s p) \<Longrightarrow> ensurePath w s p = (False, emit (EnsurePath p) s)"
  by (auto simp: ensurePath_def Let_def split: option.splits)

lemma detail_loop_closed:
  "detail_loop w cands i detail =
     detail @ concat (map (\<lambda>j. (if j > 0 then '', '' else []) @ describeCandidate w (cands ! j))
                        [i..<length cands])"
proof (induction w cands i detail rule: detail_loop.induct)
  case (1 w cands i detail)
  show ?case
  proof (cases "i < length cands")
    case True
    have u: "[i..<length cands] = i # [Suc i..<length cands]"
      using True by (rule upt_conv_Cons)
    show ?thesis
      apply (subst detail_loop.simps)
      apply (simp only: True if_True "1"[OF True] u)
      apply simp
      done
  next
    case False
    then show ?thesis by (subst detail_loop.simps) simp
  qed
qed

lemma describe_in_detail_from:
  "i \<le> j \<Longrightarrow> j < length cands \<Longrightarrow>
     sublist (describeCandidate w (cands ! j)) (detail_loop w cands i d)"
proof (induction w cands i d rule: detail_loop.induct)
  case (1 w cands i detail)
  let ?d = "(if i > 0 then detail @ '', '' else detail) @ describeCandidate w (cands ! i)"
  have lt: "i < length cands"
    using "1.prems" by simp
  have step: "detail_loop w cands i detail = detail_loop w cands (i + 1) ?d"
    using lt by (subst detail_loop.simps) (simp only: if_True)
  show ?case
  proof (cases "i = j")
    case True
    have "detail_loop w cands (i + 1) ?d =
        (if i > 0 then detail @ '', '' else detail)
          @ describeCandidate w (cands ! j)
          @ concat (map (\<lambda>j. (if j > 0 then '', '' else []) @ describeCandidate w (cands ! j))
                      [i + 1..<length cands])"
      using True by (simp add: detail_loop_closed)
    then show ?thesis
      unfolding step by (simp only: sublist_appendI)
  next
    case False
    then have "i + 1 \<le> j"
      using "1.prems" by simp
    from "1.IH"[OF lt this "1.prems"(2)] show ?thesis
      unfolding step .
  qed
qed

lemma describe_in_detail:
  assumes "p \<in> set cands"
  shows "sublist (describeCandidate w p) (detail_loop w cands 0 d)"
proof -
  from assms obtain j where "j < length cands" "cands ! j = p"
    by (auto simp: in_set_conv_nth)
  then show ?thesis
    using describe_in_detail_from[of 0 j cands w d] by simp
qed

lemma describe_status:
  "\<not> pathAccessible w p \<Longrightarrow>
     (fs_exists w p = Some False \<longrightarrow> describeCandidate w p = p @ '' (not found)'')
     \<and> (fs_exists w p = Some True \<longrightarrow> describeCandidate w p = p @ '' (not readable)'')
     \<and> (fs_exists w p = None \<longrightarrow> describeCandidate w p = p @ '' (inaccessible)'')"
  by (simp add: describeCandidate_def)

lemma detail_loop_one:
  "detail_loop w [a] 0 d = d @ describeCandidate w a"
  by (simp add: detail_loop_closed)

lemma detail_loop_two:
  "detail_loop w [a, b] 0 d = d @ describeCandidate w a @ '', '' @ describeCandidate w b"
  by (simp add: detail_loop_closed)

lemma usable_empty_inaccessible:
  "usable (discoverIdentities w) = [] \<Longrightarrow> p \<in> set (candidates (discoverIdentities w))
     \<Longrightarrow> \<not> pathAccessible w p"
  by (auto simp: discoverIdentities_def Let_def filter_empty_conv)

section \<open>Hash mismatch\<close>

lemma decrypt_runProgram_fields:
  "ensurePath (w\<lparr>runProgram := r\<rparr>) s p = ensurePath w s p"
  "discoverIdentities (w\<lparr>runProgram := r\<rparr>) = discoverIdentities w"
  "hashString (w\<lparr>runProgram := r\<rparr>) c = hashString w c"
  by (simp_all add: ensurePath_def discoverIdentities_def hashString_def Let_def
      cong: option.case_cong)

lemma resolveAge_miss:
  assumes "algo h = SHA256"
    and "\<not> fst (ensurePath w s (makeFixedOutputPath w (derivedName f) h))"
  shows "resolveAge w s pos who f (Some h) =
     resolveAge_decrypt w (emit (EnsurePath (makeFixedOutputPath w (derivedName f) h)) s)
       pos who f (Some h) (derivedName f)"
  using assms(1) ensurePath_miss[OF assms(2)] by (simp add: resolveAge_def Let_def)

text \<open>
  C2: when a SHA-256 hash is supplied, the cache check misses, decryption succeeds and the
  hash of the decrypted bytes differs from the expected one, \<^verbatim>\<open>resolveAge\<close> fails with the
  hash-mismatch error. Its message contains the expected and the actual digest in SRI
  form. The calls made are the cache check, the discovery, the existence test and the
  decryption: nothing is added to the store, which is as it was. The message is built
  from the caller, the file name and the two digests only: any other plaintext with the
  same digest gives the same message.
\<close>

theorem hash_mismatch_no_commit:
  assumes "algo h = SHA256"
    and "\<not> fst (ensurePath w s (makeFixedOutputPath w (derivedName f) h))"
    and "usable (discoverIdentities w) \<noteq> []"
    and "fs_exists w f = Some True"
    and "decryptWithAge w f (usable (discoverIdentities w)) = Inr content"
    and "hashString w content \<noteq> h"
  shows \<open>let p = makeFixedOutputPath w (derivedName f) h;
            ids = usable (discoverIdentities w);
            msg = who @ '': hash mismatch for '' @ quoted f @ ''.\<newline>''
                    @ ''  specified: '' @ to_string_SRI w h @ ''\<newline>''
                    @ ''  got:       '' @ to_string_SRI w (hashString w content) @ ''\<newline>''
                    @ ''(did you update the encrypted file without updating the hash?)''
        in resolveAge w s pos who f (Some h) =
             (Inl (EvalError pos msg),
              s\<lparr>trace := trace s @
                 [EnsurePath p, DiscoverIdentities, CiphertextExists f, Decrypt f ids]\<rparr>)
           \<and> sublist (to_string_SRI w h) msg
           \<and> sublist (to_string_SRI w (hashString w content)) msg
           \<and> (decryptWithAge (w\<lparr>runProgram := r\<rparr>) f ids = Inr content'
                \<and> hashString w content' = hashString w content \<longrightarrow>
              fst (resolveAge (w\<lparr>runProgram := r\<rparr>) s pos who f (Some h)) =
                Inl (EvalError pos msg))\<close>
proof -
  let ?p = "makeFixedOutputPath w (derivedName f) h"
  let ?ids = "usable (discoverIdentities w)"
  let ?msg = \<open>who @ '': hash mismatch for '' @ quoted f @ ''.\<newline>''
                    @ ''  specified: '' @ to_string_SRI w h @ ''\<newline>''
                    @ ''  got:       '' @ to_string_SRI w (hashString w content) @ ''\<newline>''
                    @ ''(did you update the encrypted file without updating the hash?)''\<close>
  let ?w = "w\<lparr>runProgram := r\<rparr>"
  have run: "resolveAge w s pos who f (Some h) =
      (Inl (EvalError pos ?msg),
       s\<lparr>trace := trace s @ [EnsurePath ?p, DiscoverIdentities, CiphertextExists f, Decrypt f ?ids]\<rparr>)"
    unfolding resolveAge_miss[OF assms(1,2)]
      resolveAge_decrypt_mismatch[OF assms(3,4,5,6)]
    by (simp add: emit_def)
  have c1: "sublist (to_string_SRI w h) ?msg"
  proof -
    have "?msg = (who @ '': hash mismatch for '' @ quoted f @ ''.\<newline>'' @ ''  specified: '')
        @ to_string_SRI w h
        @ (''\<newline>'' @ ''  got:       '' @ to_string_SRI w (hashString w content) @ ''\<newline>''
             @ ''(did you update the encrypted file without updating the hash?)'')"
      by simp
    then show ?thesis by (simp only: sublist_appendI)
  qed
  have c2: "sublist (to_string_SRI w (hashString w content)) ?msg"
  proof -
    have "?msg = (who @ '': hash mismatch for '' @ quoted f @ ''.\<newline>'' @ ''  specified: ''
           @ to_string_SRI w h @ ''\<newline>'' @ ''  got:       '')
        @ to_string_SRI w (hashString w content)
        @ (''\<newline>'' @ ''(did you update the encrypted file without updating the hash?)'')"
      by simp
    then show ?thesis by (simp only: sublist_appendI)
  qed
  have c3: "fst (resolveAge ?w s pos who f (Some h)) = Inl (EvalError pos ?msg)"
    if d: "decryptWithAge ?w f ?ids = Inr content'"
      and e: "hashString w content' = hashString w content"
  proof -
    have m: "\<not> fst (ensurePath ?w s (makeFixedOutputPath ?w (derivedName f) h))"
      using assms(2) by (simp add: decrypt_runProgram_fields)
    have u: "usable (discoverIdentities ?w) \<noteq> []"
      using assms(3) by (simp add: decrypt_runProgram_fields)
    have x: "fs_exists ?w f = Some True"
      using assms(4) by simp
    have d': "decryptWithAge ?w f (usable (discoverIdentities ?w)) = Inr content'"
      using d by (simp add: decrypt_runProgram_fields)
    have n: "hashString ?w content' \<noteq> h"
      using assms(6) e by (simp add: decrypt_runProgram_fields)
    show ?thesis
      unfolding resolveAge_miss[OF assms(1) m] resolveAge_decrypt_mismatch[OF u x d' n]
      using e by (simp add: decrypt_runProgram_fields)
  qed
  show ?thesis
    unfolding Let_def using run c1 c2 c3 by blast
qed

theorem hash_mismatch_no_commit_witness:
  \<open>resolveAge test_world empty_state 7 ''builtins.readAge'' ''/tmp/test/plain.txt.age''
       (Some \<lparr>algo = SHA256, digest = ''AAAA''\<rparr>) =
     (Inl (EvalError 7
        (''builtins.readAge: hash mismatch for '' @ quoted ''/tmp/test/plain.txt.age''
           @ ''.\<newline>  specified: sha256-AAAA\<newline>  got:       sha256-ega morf olleh\<newline>''
           @ ''(did you update the encrypted file without updating the hash?)'')),
      \<lparr>store = [],
       trace = [EnsurePath ''/nix/store/AAAA-plain.txt'', DiscoverIdentities,
                CiphertextExists ''/tmp/test/plain.txt.age'',
                Decrypt ''/tmp/test/plain.txt.age'' [''/tmp/test/key.txt'']]\<rparr>)\<close>
  using hash_mismatch_no_commit
    [where h = "\<lparr>algo = SHA256, digest = ''AAAA''\<rparr>" and w = test_world
       and s = empty_state and f = "''/tmp/test/plain.txt.age''"
       and content = "''hello from age''" and r = test_age and content' = "''hello from age''"
       and who = "''builtins.readAge''" and pos = 7]
  by (simp add: test_world_def test_files_def test_age_def empty_state_def derivedName_def
      baseName_def stripAgeSuffix_def ends_with_def ensurePath_def emit_def
      discoverIdentities_def decryptWithAge_def hashString_def Let_def)


section \<open>No usable identity\<close>

lemma sublist_embed: "sublist xs ys \<Longrightarrow> sublist xs (a @ ys @ b)"
proof -
  assume "sublist xs ys"
  then obtain ps ss where "ys = ps @ xs @ ss"
    by (auto simp: sublist_def)
  then have "a @ ys @ b = (a @ ps) @ xs @ (ss @ b)"
    by simp
  then show ?thesis
    by (simp only: sublist_appendI)
qed

lemma resolveAge_reaches_discovery:
  assumes "case eh of None \<Rightarrow> \<not> pureEval w
           | Some h \<Rightarrow> algo h = SHA256
               \<and> \<not> fst (ensurePath w s (makeFixedOutputPath w (derivedName f) h))"
  shows "resolveAge w s pos who f eh =
     resolveAge_decrypt w
       (s\<lparr>trace := trace s @
            (case eh of None \<Rightarrow> []
             | Some h \<Rightarrow> [EnsurePath (makeFixedOutputPath w (derivedName f) h)])\<rparr>)
       pos who f eh (derivedName f)"
proof (cases eh)
  case None
  then show ?thesis
    using assms by (simp add: resolveAge_def Let_def)
next
  case (Some h)
  then show ?thesis
    using assms resolveAge_miss[of h w s f pos who] by (simp add: emit_def)
qed

text \<open>
  C5: when the resolution reaches identity discovery (no hash outside pure mode, or a
  SHA-256 hash whose cache check misses) and no candidate is usable, \<^verbatim>\<open>resolveAge\<close> fails
  with the no-usable-identity error. With no candidate at all the message says that the
  home directory could not be determined. Otherwise it lists, after \<^verbatim>\<open>checked:\<close> and
  separated by commas, the description of every candidate in candidate order, and the
  description of a candidate is decided by the filesystem: the path followed by
  \<^verbatim>\<open>(not found)\<close> when the file does not exist (missing), by \<^verbatim>\<open>(not readable)\<close> when it
  exists and is not accessible, and by \<^verbatim>\<open>(inaccessible)\<close> when the existence test itself
  fails (both unreadable). With a hash the message ends with the note on the absent
  store path, substitution and an impure run. The last call made is the discovery: the
  ciphertext has not been tested for existence.
\<close>

theorem no_usable_identity:
  assumes "case eh of None \<Rightarrow> \<not> pureEval w
           | Some h \<Rightarrow> algo h = SHA256
               \<and> \<not> fst (ensurePath w s (makeFixedOutputPath w (derivedName f) h))"
    and "usable (discoverIdentities w) = []"
  shows \<open>let cands = candidates (discoverIdentities w);
            detail =
              (if cands = [] then ''no candidate paths (could not determine home directory)''
               else detail_loop w cands 0 ''checked: '');
            msg = who @ '': no usable identity found. '' @ detail
              @ ''. Set AGE_IDENTITY_FILE or ensure a key exists at a default path.''
              @ (if eh \<noteq> None then
                   '' The hash-locked store path is not present and no identity was found to decrypt.''
                     @ '' You may need to run an initial impure evaluation on a machine with the identity,''
                     @ '' or populate the store path via substitution.''
                 else [])
        in resolveAge w s pos who f eh =
             (Inl (EvalError pos msg),
              s\<lparr>trace := trace s @
                 (case eh of None \<Rightarrow> []
                  | Some h \<Rightarrow> [EnsurePath (makeFixedOutputPath w (derivedName f) h)])
                 @ [DiscoverIdentities]\<rparr>)
           \<and> (\<forall>p \<in> set cands.
                 sublist (describeCandidate w p) msg
                 \<and> \<not> pathAccessible w p
                 \<and> (fs_exists w p = Some False \<longrightarrow>
                      describeCandidate w p = p @ '' (not found)'')
                 \<and> (fs_exists w p = Some True \<longrightarrow>
                      describeCandidate w p = p @ '' (not readable)'')
                 \<and> (fs_exists w p = None \<longrightarrow>
                      describeCandidate w p = p @ '' (inaccessible)''))
           \<and> (\<forall>a. cands = [a] \<longrightarrow> detail = ''checked: '' @ describeCandidate w a)
           \<and> (\<forall>a b. cands = [a, b] \<longrightarrow>
                 detail = ''checked: '' @ describeCandidate w a @ '', '' @ describeCandidate w b)\<close>
proof -
  let ?cands = "candidates (discoverIdentities w)"
  let ?detail = "if ?cands = [] then ''no candidate paths (could not determine home directory)''
               else detail_loop w ?cands 0 ''checked: ''"
  let ?tail = \<open>''. Set AGE_IDENTITY_FILE or ensure a key exists at a default path.''
              @ (if eh \<noteq> None then
                   '' The hash-locked store path is not present and no identity was found to decrypt.''
                     @ '' You may need to run an initial impure evaluation on a machine with the identity,''
                     @ '' or populate the store path via substitution.''
                 else [])\<close>
  let ?msg = "who @ '': no usable identity found. '' @ ?detail @ ?tail"
  have run: "resolveAge w s pos who f eh =
      (Inl (EvalError pos ?msg),
       s\<lparr>trace := trace s @
          (case eh of None \<Rightarrow> []
           | Some h \<Rightarrow> [EnsurePath (makeFixedOutputPath w (derivedName f) h)])
          @ [DiscoverIdentities]\<rparr>)"
    unfolding resolveAge_reaches_discovery[OF assms(1)]
      resolveAge_decrypt_no_identity[OF assms(2)]
    by (simp add: emit_def)
  have each: "sublist (describeCandidate w p) ?msg
      \<and> \<not> pathAccessible w p
      \<and> (fs_exists w p = Some False \<longrightarrow> describeCandidate w p = p @ '' (not found)'')
      \<and> (fs_exists w p = Some True \<longrightarrow> describeCandidate w p = p @ '' (not readable)'')
      \<and> (fs_exists w p = None \<longrightarrow> describeCandidate w p = p @ '' (inaccessible)'')"
    if p: "p \<in> set ?cands" for p
  proof -
    have ne: "?cands \<noteq> []"
      using p by auto
    have "sublist (describeCandidate w p) (detail_loop w ?cands 0 ''checked: '')"
      using p by (rule describe_in_detail)
    then have "sublist (describeCandidate w p) ?detail"
      using ne by simp
    then have "sublist (describeCandidate w p)
        ((who @ '': no usable identity found. '') @ ?detail @ ?tail)"
      by (rule sublist_embed)
    then have a: "sublist (describeCandidate w p) ?msg"
      by simp
    have na: "\<not> pathAccessible w p"
      using assms(2) p by (rule usable_empty_inaccessible)
    show ?thesis
      using a na describe_status[OF na] by blast
  qed
  have one: "?detail = ''checked: '' @ describeCandidate w a" if "?cands = [a]" for a
    using that by (simp add: detail_loop_one)
  have two: "?detail = ''checked: '' @ describeCandidate w a @ '', '' @ describeCandidate w b"
    if "?cands = [a, b]" for a b
    using that by (simp add: detail_loop_two)
  show ?thesis
    unfolding Let_def using run each one two by blast
qed

theorem no_usable_identity_witness:
  \<open>resolveAge
       (test_world\<lparr>getEnv := (\<lambda>v. None),
          fs_exists := (\<lambda>p. Some (p = ''/root/.ssh/id_ed25519''))\<rparr>)
       empty_state 7 ''builtins.readAge'' ''/tmp/test/plain.txt.age''
       (Some \<lparr>algo = SHA256, digest = ''AAAA''\<rparr>) =
     (Inl (EvalError 7
        (''builtins.readAge: no usable identity found. ''
           @ ''checked: /root/.ssh/id_ed25519 (not readable), /root/.ssh/id_rsa (not found). ''
           @ ''Set AGE_IDENTITY_FILE or ensure a key exists at a default path.''
           @ '' The hash-locked store path is not present and no identity was found to decrypt.''
           @ '' You may need to run an initial impure evaluation on a machine with the identity,''
           @ '' or populate the store path via substitution.'')),
      \<lparr>store = [], trace = [EnsurePath ''/nix/store/AAAA-plain.txt'', DiscoverIdentities]\<rparr>)
   \<and> resolveAge
       (test_world\<lparr>getEnv :=
          (\<lambda>v. if v = ''AGE_IDENTITY_FILE'' then Some ''/nonexistent/key'' else None),
          fs_exists := (\<lambda>p. None)\<rparr>)
       empty_state 7 ''builtins.readAge'' ''/tmp/test/plain.txt.age'' None =
     (Inl (EvalError 7
        (''builtins.readAge: no usable identity found. checked: /nonexistent/key (inaccessible). ''
           @ ''Set AGE_IDENTITY_FILE or ensure a key exists at a default path.'')),
      \<lparr>store = [], trace = [DiscoverIdentities]\<rparr>)
   \<and> resolveAge (test_world\<lparr>getEnv := (\<lambda>v. None), getHome := None\<rparr>)
       empty_state 7 ''builtins.readAge'' ''/tmp/test/plain.txt.age'' None =
     (Inl (EvalError 7
        (''builtins.readAge: no usable identity found. ''
           @ ''no candidate paths (could not determine home directory). ''
           @ ''Set AGE_IDENTITY_FILE or ensure a key exists at a default path.'')),
      \<lparr>store = [], trace = [DiscoverIdentities]\<rparr>)\<close>
  using no_usable_identity
    [where eh = "Some \<lparr>algo = SHA256, digest = ''AAAA''\<rparr>" and s = empty_state
       and f = "''/tmp/test/plain.txt.age''" and who = "''builtins.readAge''" and pos = 7
       and w = "test_world\<lparr>getEnv := (\<lambda>v. None),
          fs_exists := (\<lambda>p. Some (p = ''/root/.ssh/id_ed25519''))\<rparr>"]
    no_usable_identity
    [where eh = None and s = empty_state and f = "''/tmp/test/plain.txt.age''"
       and who = "''builtins.readAge''" and pos = 7
       and w = "test_world\<lparr>getEnv :=
          (\<lambda>v. if v = ''AGE_IDENTITY_FILE'' then Some ''/nonexistent/key'' else None),
          fs_exists := (\<lambda>p. None)\<rparr>"]
    no_usable_identity
    [where eh = None and s = empty_state and f = "''/tmp/test/plain.txt.age''"
       and who = "''builtins.readAge''" and pos = 7
       and w = "test_world\<lparr>getEnv := (\<lambda>v. None), getHome := None\<rparr>"]
  by (simp add: test_world_def test_files_def empty_state_def discoverIdentities_def
      describeCandidate_def detail_loop_closed path_join_def derivedName_def baseName_def
      stripAgeSuffix_def ends_with_def ensurePath_def emit_def Let_def)

section \<open>The diagnostic of an unlocked resolution\<close>

lemma addToStoreFromDump_path:
  "fst (addToStoreFromDump w s name content) = makeFixedOutputPath w name (hashString w content)"
  by (simp add: addToStoreFromDump_def Let_def split: option.splits)

lemma addToStoreFromDump_trace:
  "trace (snd (addToStoreFromDump w s name content)) = trace s @ [AddToStore name content]"
  by (simp add: addToStoreFromDump_def emit_def Let_def split: option.splits)

lemma resolveAge_decrypt_Inr:
  assumes "resolveAge_decrypt w s pos who f eh name = (Inr p, s')"
  shows "usable (discoverIdentities w) \<noteq> [] \<and> fs_exists w f = Some True
     \<and> (\<exists>content. decryptWithAge w f (usable (discoverIdentities w)) = Inr content
           \<and> (eh = None \<or> eh = Some (hashString w content)))"
proof -
  have u: "usable (discoverIdentities w) \<noteq> []"
    using assms resolveAge_decrypt_no_identity[of w s pos who f eh name] by auto
  have x: "fs_exists w f = Some True"
  proof (cases "fs_exists w f")
    case None
    then show ?thesis
      using assms u by (simp add: resolveAge_decrypt_def Let_def)
  next
    case (Some b)
    then show ?thesis
      using assms u by (cases b) (simp_all add: resolveAge_decrypt_def Let_def)
  qed
  obtain content where d: "decryptWithAge w f (usable (discoverIdentities w)) = Inr content"
    using assms u x
    by (cases "decryptWithAge w f (usable (discoverIdentities w))")
       (simp_all add: resolveAge_decrypt_def Let_def)
  have "eh = None \<or> eh = Some (hashString w content)"
  proof (cases eh)
    case None
    then show ?thesis by simp
  next
    case (Some h)
    show ?thesis
    proof (rule ccontr)
      assume "\<not> ?thesis"
      then have "hashString w content \<noteq> h"
        using Some by auto
      from resolveAge_decrypt_mismatch[OF u x d this, of s pos who name] show False
        using assms Some by simp
    qed
  qed
  then show ?thesis
    using u x d by blast
qed

text \<open>
  C8, as the code has it: every resolution that succeeds with no expected hash has
  decrypted some content, returns the fixed-output path of its SHA-256 hash, and ends
  with two calls in this order: \<^verbatim>\<open>addToStoreFromDump\<close> of the content, then the \<^verbatim>\<open>warn\<close>
  whose text holds the hash of that content in SRI form as \<^verbatim>\<open>hash = "...";\<close>. The
  diagnostic follows the commit; it does not precede it.
\<close>

theorem computed_hash_diagnostic_follows_commit:
  assumes "resolveAge w s pos who f None = (Inr p, s')"
  shows \<open>\<exists>content.
     decryptWithAge w f (usable (discoverIdentities w)) = Inr content
     \<and> p = makeFixedOutputPath w (derivedName f) (hashString w content)
     \<and> trace s' = trace s @
         [DiscoverIdentities, CiphertextExists f, Decrypt f (usable (discoverIdentities w)),
          AddToStore (derivedName f) content,
          Warn (who @ '': hash for '' @ quoted f @ '' is:\<newline>  hash = "''
                  @ to_string_SRI w (hashString w content) @ ''";'')]\<close>
proof -
  have np: "\<not> pureEval w"
    using assms by (auto simp: resolveAge_def Let_def)
  then have r: "resolveAge_decrypt w s pos who f None (derivedName f) = (Inr p, s')"
    using assms by (simp add: resolveAge_def Let_def)
  from resolveAge_decrypt_Inr[OF r] obtain content
    where u: "usable (discoverIdentities w) \<noteq> []"
      and x: "fs_exists w f = Some True"
      and d: "decryptWithAge w f (usable (discoverIdentities w)) = Inr content"
    by blast
  have "None = None \<or> None = Some (hashString w content)"
    by simp
  from resolveAge_decrypt_commit[OF u x d this, of s pos who "derivedName f"] r
  have "p = makeFixedOutputPath w (derivedName f) (hashString w content)"
    and \<open>trace s' = trace s @
         [DiscoverIdentities, CiphertextExists f, Decrypt f (usable (discoverIdentities w)),
          AddToStore (derivedName f) content,
          Warn (who @ '': hash for '' @ quoted f @ '' is:\<newline>  hash = "''
                  @ to_string_SRI w (hashString w content) @ ''";'')]\<close>
    by (auto simp: addToStoreFromDump_path addToStoreFromDump_trace emit_def)
  then show ?thesis
    using d by blast
qed

text \<open>
  C8, as stated (the diagnostic is emitted before the commit), fails on the fixture: in the
  trace of the impure \<^verbatim>\<open>readAge\<close> of \<^verbatim>\<open>plain.txt.age\<close> the \<^verbatim>\<open>warn\<close> comes after
  \<^verbatim>\<open>addToStoreFromDump\<close>.
\<close>

theorem diagnostic_before_commit_counterexample:
  \<open>resolveAge test_world empty_state 7 ''builtins.readAge'' ''/tmp/test/plain.txt.age'' None =
     (Inr ''/nix/store/ega morf olleh-plain.txt'',
      \<lparr>store = [(''/nix/store/ega morf olleh-plain.txt'', ''hello from age'')],
       trace = [DiscoverIdentities, CiphertextExists ''/tmp/test/plain.txt.age'',
                Decrypt ''/tmp/test/plain.txt.age'' [''/tmp/test/key.txt''],
                AddToStore ''plain.txt'' ''hello from age'',
                Warn (''builtins.readAge: hash for '' @ quoted ''/tmp/test/plain.txt.age''
                        @ '' is:\<newline>  hash = "sha256-ega morf olleh";'')]\<rparr>)\<close>
  by (simp add: resolveAge_def resolveAge_decrypt_def test_world_def test_files_def test_age_def
      empty_state_def derivedName_def baseName_def stripAgeSuffix_def ends_with_def emit_def
      discoverIdentities_def decryptWithAge_def hashString_def addToStoreFromDump_def Let_def)

theorem computed_hash_diagnostic_follows_commit_witness:
  \<open>\<exists>content.
     decryptWithAge test_world ''/tmp/test/null.bin.age''
         (usable (discoverIdentities test_world)) = Inr content
     \<and> ''/nix/store/llun'' @ [CHR 0x00] @ ''sah-null.bin'' =
         makeFixedOutputPath test_world (derivedName ''/tmp/test/null.bin.age'')
           (hashString test_world content)
     \<and> trace (snd (resolveAge test_world empty_state 7 ''builtins.importAge''
                      ''/tmp/test/null.bin.age'' None)) =
         trace empty_state @
         [DiscoverIdentities, CiphertextExists ''/tmp/test/null.bin.age'',
          Decrypt ''/tmp/test/null.bin.age'' (usable (discoverIdentities test_world)),
          AddToStore (derivedName ''/tmp/test/null.bin.age'') content,
          Warn (''builtins.importAge'' @ '': hash for '' @ quoted ''/tmp/test/null.bin.age''
                  @ '' is:\<newline>  hash = "''
                  @ to_string_SRI test_world (hashString test_world content) @ ''";'')]\<close>
proof -
  have "resolveAge test_world empty_state 7 ''builtins.importAge'' ''/tmp/test/null.bin.age'' None =
      (Inr (''/nix/store/llun'' @ [CHR 0x00] @ ''sah-null.bin''),
       snd (resolveAge test_world empty_state 7 ''builtins.importAge''
              ''/tmp/test/null.bin.age'' None))"
    by (simp add: resolveAge_def resolveAge_decrypt_def test_world_def test_files_def test_age_def
      empty_state_def derivedName_def baseName_def stripAgeSuffix_def ends_with_def emit_def
      discoverIdentities_def decryptWithAge_def hashString_def addToStoreFromDump_def Let_def)
  from computed_hash_diagnostic_follows_commit[OF this] show ?thesis .
qed

section \<open>Round trip\<close>

lemma hashString_algo: "algo (hashString w content) = SHA256"
  by (simp add: hashString_def)


lemma addToStoreFromDump_content:
  assumes "map_of (store s) (makeFixedOutputPath w name (hashString w content)) = None
           \<or> map_of (store s) (makeFixedOutputPath w name (hashString w content)) = Some content"
  shows "map_of (store (snd (addToStoreFromDump w s name content)))
     (makeFixedOutputPath w name (hashString w content)) = Some content"
  using assms
  by (auto simp: addToStoreFromDump_def emit_def Let_def map_of_snoc simp del: map_of_append
      split: option.splits)







section \<open>Embedded NUL bytes\<close>

lemma resolveAge_decrypt_commit_facts:
  assumes "usable (discoverIdentities w) \<noteq> []"
    and "fs_exists w f = Some True"
    and "decryptWithAge w f (usable (discoverIdentities w)) = Inr content"
    and "eh = None \<or> eh = Some (hashString w content)"
  shows "fst (resolveAge_decrypt w s pos who f eh name) =
       Inr (makeFixedOutputPath w name (hashString w content))"
    and "AddToStore name content \<in> set (trace (snd (resolveAge_decrypt w s pos who f eh name)))"
    and "map_of (store s) (makeFixedOutputPath w name (hashString w content)) = None
           \<or> map_of (store s) (makeFixedOutputPath w name (hashString w content)) = Some content
         \<Longrightarrow> map_of (store (snd (resolveAge_decrypt w s pos who f eh name)))
           (makeFixedOutputPath w name (hashString w content)) = Some content"
proof -
  let ?s3 = "emit (Decrypt f (usable (discoverIdentities w)))
               (emit (CiphertextExists f) (emit DiscoverIdentities s))"
  note c = resolveAge_decrypt_commit[OF assms, of s pos who name]
  show "fst (resolveAge_decrypt w s pos who f eh name) =
       Inr (makeFixedOutputPath w name (hashString w content))"
    unfolding c by (simp add: addToStoreFromDump_path)
  show "AddToStore name content \<in> set (trace (snd (resolveAge_decrypt w s pos who f eh name)))"
    unfolding c by (simp add: addToStoreFromDump_trace emit_def)
  have st: "store ?s3 = store s"
    by (simp add: emit_def)
  show "map_of (store (snd (resolveAge_decrypt w s pos who f eh name)))
           (makeFixedOutputPath w name (hashString w content)) = Some content"
    if "map_of (store s) (makeFixedOutputPath w name (hashString w content)) = None
           \<or> map_of (store s) (makeFixedOutputPath w name (hashString w content)) = Some content"
    using addToStoreFromDump_content[of ?s3 w name content] that
    unfolding c st by (simp add: emit_def)
qed

text \<open>
  C9: let \<^verbatim>\<open>readAge\<close> be called on a ciphertext whose decryption yields content with an
  embedded NUL byte, in a resolution that decrypts (no hash outside pure mode, or the
  hash of the content with a missed cache check), on a store that holds nothing or that
  very content under the content's path. Then \<^verbatim>\<open>resolveAge\<close> itself succeeds: it has
  called \<^verbatim>\<open>addToStoreFromDump\<close> with the raw bytes, the store holds them, and it returns
  their path. \<^verbatim>\<open>readAge\<close> fails with its own error afterwards: the state it leaves is
  the state after the resolution with the \<^verbatim>\<open>allowPath\<close> and \<^verbatim>\<open>readFile\<close> calls added, so
  the commit has happened and stays.
\<close>

theorem nul_rejected_after_commit:
  assumes "parseAgeAttrs w pos arg ''builtins.readAge'' = Inr a"
    and "case age_hash a of None \<Rightarrow> \<not> pureEval w
         | Some h \<Rightarrow> h = hashString w content
             \<and> \<not> fst (ensurePath w s (makeFixedOutputPath w (derivedName (age_file a)) h))"
    and "usable (discoverIdentities w) \<noteq> []"
    and "fs_exists w (age_file a) = Some True"
    and "decryptWithAge w (age_file a) (usable (discoverIdentities w)) = Inr content"
    and "CHR 0x00 \<in> set content"
    and "map_of (store s)
           (makeFixedOutputPath w (derivedName (age_file a)) (hashString w content)) = None
         \<or> map_of (store s)
           (makeFixedOutputPath w (derivedName (age_file a)) (hashString w content)) = Some content"
  shows "let p = makeFixedOutputPath w (derivedName (age_file a)) (hashString w content);
             s1 = snd (resolveAge w s pos ''builtins.readAge'' (age_file a) (age_hash a))
         in fst (resolveAge w s pos ''builtins.readAge'' (age_file a) (age_hash a)) = Inr p
            \<and> AddToStore (derivedName (age_file a)) content \<in> set (trace s1)
            \<and> map_of (store s1) p = Some content
            \<and> prim_readAge w s pos arg =
                (Inl (EvalError pos
                   (''builtins.readAge: the decrypted contents of '' @ quoted (age_file a)
                      @ '' cannot be represented as a Nix string'')),
                 s1\<lparr>trace := trace s1 @ [AllowPath p, ReadFile p]\<rparr>)"
proof -
  let ?f = "age_file a"
  let ?eh = "age_hash a"
  let ?p = "makeFixedOutputPath w (derivedName ?f) (hashString w content)"
  let ?s0 = "s\<lparr>trace := trace s @
            (case ?eh of None \<Rightarrow> []
             | Some h \<Rightarrow> [EnsurePath (makeFixedOutputPath w (derivedName ?f) h)])\<rparr>"
  let ?r = "resolveAge w s pos ''builtins.readAge'' ?f ?eh"
  have reach: "case ?eh of None \<Rightarrow> \<not> pureEval w
           | Some h \<Rightarrow> algo h = SHA256
               \<and> \<not> fst (ensurePath w s (makeFixedOutputPath w (derivedName ?f) h))"
    using assms(2) by (auto simp: hashString_algo split: option.splits)
  have eh: "?eh = None \<or> ?eh = Some (hashString w content)"
    using assms(2) by (auto split: option.splits)
  have r: "?r = resolveAge_decrypt w ?s0 pos ''builtins.readAge'' ?f ?eh (derivedName ?f)"
    by (rule resolveAge_reaches_discovery[OF reach])
  have st: "store ?s0 = store s"
    by simp
  note facts = resolveAge_decrypt_commit_facts[OF assms(3,4,5) eh,
      where s = ?s0 and pos = pos and who = "''builtins.readAge''" and name = "derivedName ?f"]
  have a1: "fst ?r = Inr ?p"
    unfolding r by (rule facts(1))
  have a2: "AddToStore (derivedName ?f) content \<in> set (trace (snd ?r))"
    unfolding r by (rule facts(2))
  have a3: "map_of (store (snd ?r)) ?p = Some content"
    unfolding r using facts(3) assms(7) unfolding st by blast
  obtain s1 where rs: "?r = (Inr ?p, s1)"
    using a1 by (cases ?r) simp
  have s1: "snd ?r = s1"
    by (simp add: rs)
  have "prim_readAge w s pos arg =
      (Inl (EvalError pos
         (''builtins.readAge: the decrypted contents of '' @ quoted ?f
            @ '' cannot be represented as a Nix string'')),
       s1\<lparr>trace := trace s1 @ [AllowPath ?p, ReadFile ?p]\<rparr>)"
    using assms(1) assms(6) a3[unfolded s1]
    by (simp add: prim_readAge_def rs emit_def Let_def)
  then have a4: "prim_readAge w s pos arg =
      (Inl (EvalError pos
         (''builtins.readAge: the decrypted contents of '' @ quoted ?f
            @ '' cannot be represented as a Nix string'')),
       (snd ?r)\<lparr>trace := trace (snd ?r) @ [AllowPath ?p, ReadFile ?p]\<rparr>)"
    by (simp only: s1)
  show ?thesis
    unfolding Let_def using a1 a2 a3 a4 by blast
qed

theorem nul_rejected_after_commit_witness:
  \<open>prim_readAge test_world empty_state 7
       (VAttrs [(''file'', 1, VPath ''/tmp/test/null.bin.age'')]) =
     (Inl (EvalError 7
        (''builtins.readAge: the decrypted contents of '' @ quoted ''/tmp/test/null.bin.age''
           @ '' cannot be represented as a Nix string'')),
      (snd (resolveAge test_world empty_state 7 ''builtins.readAge''
              ''/tmp/test/null.bin.age'' None))
        \<lparr>trace := trace (snd (resolveAge test_world empty_state 7 ''builtins.readAge''
                ''/tmp/test/null.bin.age'' None))
             @ [AllowPath (''/nix/store/llun'' @ [CHR 0x00] @ ''sah-null.bin''),
                ReadFile (''/nix/store/llun'' @ [CHR 0x00] @ ''sah-null.bin'')]\<rparr>)
   \<and> fst (resolveAge test_world empty_state 7 ''builtins.readAge''
              ''/tmp/test/null.bin.age'' None) =
       Inr (''/nix/store/llun'' @ [CHR 0x00] @ ''sah-null.bin'')
   \<and> AddToStore ''null.bin'' (''has'' @ [CHR 0x00] @ ''null'')
       \<in> set (trace (snd (resolveAge test_world empty_state 7 ''builtins.readAge''
              ''/tmp/test/null.bin.age'' None)))
   \<and> map_of (store (snd (resolveAge test_world empty_state 7 ''builtins.readAge''
              ''/tmp/test/null.bin.age'' None)))
         (''/nix/store/llun'' @ [CHR 0x00] @ ''sah-null.bin'') =
       Some (''has'' @ [CHR 0x00] @ ''null'')\<close>
proof -
  let ?a = "\<lparr>age_file = ''/tmp/test/null.bin.age'', age_hash = None\<rparr>"
  have parse: "parseAgeAttrs test_world 7
      (VAttrs [(''file'', 1, VPath ''/tmp/test/null.bin.age'')]) ''builtins.readAge'' = Inr ?a"
    by (simp add: parseAgeAttrs_def test_world_def)
  have reach: "case age_hash ?a of None \<Rightarrow> \<not> pureEval test_world
         | Some h \<Rightarrow> h = hashString test_world (''has'' @ [CHR 0x00] @ ''null'')
             \<and> \<not> fst (ensurePath test_world empty_state
                       (makeFixedOutputPath test_world (derivedName (age_file ?a)) h))"
    by (simp add: test_world_def)
  have u: "usable (discoverIdentities test_world) \<noteq> []"
    by (simp add: discoverIdentities_def test_world_def test_files_def Let_def)
  have x: "fs_exists test_world (age_file ?a) = Some True"
    by (simp add: test_world_def test_files_def)
  have d: "decryptWithAge test_world (age_file ?a)
      (usable (discoverIdentities test_world)) = Inr (''has'' @ [CHR 0x00] @ ''null'')"
    by (simp add: decryptWithAge_def discoverIdentities_def test_world_def test_files_def
        test_age_def Let_def)
  have nul: "CHR 0x00 \<in> set (''has'' @ [CHR 0x00] @ ''null'')"
    by simp
  have cons: "map_of (store empty_state)
           (makeFixedOutputPath test_world (derivedName (age_file ?a))
              (hashString test_world (''has'' @ [CHR 0x00] @ ''null''))) = None
         \<or> map_of (store empty_state)
           (makeFixedOutputPath test_world (derivedName (age_file ?a))
              (hashString test_world (''has'' @ [CHR 0x00] @ ''null'')))
             = Some (''has'' @ [CHR 0x00] @ ''null'')"
    by (simp add: empty_state_def)
  from nul_rejected_after_commit[OF parse reach u x d nul cons]
  show ?thesis
    unfolding Let_def
    by (simp add: test_world_def hashString_def derivedName_def baseName_def
        stripAgeSuffix_def ends_with_def)
qed

section \<open>The attribute set of the primops\<close>

lemma parseAgeAttrs_loop_empty_hash:
  assumes "\<forall>apos v. (''hash'', apos, v) \<in> set attrs \<longrightarrow> forceStringNoCtx w v = Inr []"
  shows "parseAgeAttrs_loop w who attrs fo ho =
     parseAgeAttrs_loop w who (filter (\<lambda>(n, apos, v). n \<noteq> ''hash'') attrs) fo ho"
  using assms
proof (induction attrs arbitrary: fo ho)
  case Nil
  then show ?case by simp
next
  case (Cons x attrs)
  obtain n apos v where x: "x = (n, apos, v)"
    by (cases x) auto
  have rest: "\<forall>apos v. (''hash'', apos, v) \<in> set attrs \<longrightarrow> forceStringNoCtx w v = Inr []"
    using Cons.prems by auto
  show ?case
  proof (cases "n = ''hash''")
    case True
    then have "forceStringNoCtx w v = Inr []"
      using Cons.prems x by auto
    then show ?thesis
      using True x Cons.IH[OF rest] by simp
  next
    case False
    then show ?thesis
      using x Cons.IH[OF rest] by (simp split: sum.splits)
  qed
qed

lemma parseAgeAttrs_loop_no_hash:
  assumes "\<forall>apos v. (''hash'', apos, v) \<notin> set attrs"
    and "parseAgeAttrs_loop w who attrs fo ho = Inr (fo', ho')"
  shows "ho' = ho"
  using assms
proof (induction attrs arbitrary: fo ho)
  case Nil
  then show ?case by simp
next
  case (Cons x attrs)
  obtain n apos v where x: "x = (n, apos, v)"
    by (cases x) auto
  have n: "n \<noteq> ''hash''"
    using Cons.prems(1) x by auto
  have rest: "\<forall>apos v. (''hash'', apos, v) \<notin> set attrs"
    using Cons.prems(1) by auto
  show ?case
  proof (cases "n = ''file''")
    case True
    then obtain p where "coerceToPath w v = Inr p"
        and "parseAgeAttrs_loop w who attrs (Some p) ho = Inr (fo', ho')"
      using Cons.prems(2) x by (cases "coerceToPath w v") auto
    then show ?thesis
      using Cons.IH[OF rest] by blast
  next
    case False
    then show ?thesis
      using Cons.prems(2) x n by simp
  qed
qed

text \<open>
  C10: let every \<^verbatim>\<open>hash\<close> attribute of the argument be the empty string, and let a second
  argument be the same attribute set without \<^verbatim>\<open>hash\<close>. Then \<^verbatim>\<open>parseAgeAttrs\<close> gives the
  same result for both, with no expected hash when it succeeds, and \<^verbatim>\<open>readAge\<close> and
  \<^verbatim>\<open>importAge\<close> behave the same on both, result and state: the purity gate and the
  diagnostic of the computed hash apply as they do with no hash.
\<close>

theorem empty_hash_is_no_hash:
  assumes "forceAttrs w arg = Inr attrs"
    and "forceAttrs w arg' = Inr (filter (\<lambda>(n, apos, v). n \<noteq> ''hash'') attrs)"
    and "\<forall>apos v. (''hash'', apos, v) \<in> set attrs \<longrightarrow> forceStringNoCtx w v = Inr []"
  shows "parseAgeAttrs w pos arg who = parseAgeAttrs w pos arg' who
     \<and> (\<forall>a. parseAgeAttrs w pos arg who = Inr a \<longrightarrow> age_hash a = None)
     \<and> prim_readAge w s pos arg = prim_readAge w s pos arg'
     \<and> prim_importAge w s pos arg = prim_importAge w s pos arg'"
proof -
  let ?attrs' = "filter (\<lambda>(n, apos, v). n \<noteq> ''hash'') attrs"
  have loop: "parseAgeAttrs_loop w who' attrs None None =
      parseAgeAttrs_loop w who' ?attrs' None None" for who'
    using assms(3) by (rule parseAgeAttrs_loop_empty_hash)
  have same: "parseAgeAttrs w pos arg who' = parseAgeAttrs w pos arg' who'" for who'
    by (simp add: parseAgeAttrs_def assms(1,2) loop)
  have nohash: "\<forall>apos v. (''hash'', apos, v) \<notin> set ?attrs'"
    by auto
  have none: "age_hash a = None" if "parseAgeAttrs w pos arg who = Inr a" for a
  proof -
    from that have "parseAgeAttrs w pos arg' who = Inr a"
      by (simp add: same)
    then obtain fo ho where l: "parseAgeAttrs_loop w who ?attrs' None None = Inr (fo, ho)"
        and a: "age_hash a = ho"
      by (auto simp: parseAgeAttrs_def assms(2) split: sum.splits option.splits)
    from parseAgeAttrs_loop_no_hash[OF nohash l] a show ?thesis
      by simp
  qed
  show ?thesis
    using same none by (simp add: prim_readAge_def prim_importAge_def)
qed

theorem empty_hash_is_no_hash_witness:
  \<open>prim_readAge (test_world\<lparr>pureEval := True\<rparr>) empty_state 7
       (VAttrs [(''file'', 1, VPath ''/tmp/test/plain.txt.age''), (''hash'', 2, VString '''')]) =
     prim_readAge (test_world\<lparr>pureEval := True\<rparr>) empty_state 7
       (VAttrs [(''file'', 1, VPath ''/tmp/test/plain.txt.age'')])
   \<and> parseAgeAttrs (test_world\<lparr>pureEval := True\<rparr>) 7
       (VAttrs [(''file'', 1, VPath ''/tmp/test/plain.txt.age''), (''hash'', 2, VString '''')])
       ''builtins.readAge'' =
     Inr \<lparr>age_file = ''/tmp/test/plain.txt.age'', age_hash = None\<rparr>
   \<and> prim_readAge (test_world\<lparr>pureEval := True\<rparr>) empty_state 7
       (VAttrs [(''file'', 1, VPath ''/tmp/test/plain.txt.age''), (''hash'', 2, VString '''')]) =
     (Inl (EvalError 7
        (''builtins.readAge requires 'hash' in pure evaluation mode. ''
           @ ''Run with '--impure' for first-time decryption, ''
           @ ''then add the printed hash to your expression.'')), empty_state)\<close>
proof -
  let ?w = "test_world\<lparr>pureEval := True\<rparr>"
  let ?attrs = "[(''file'', 1::nat, VPath ''/tmp/test/plain.txt.age''), (''hash'', 2, VString '''')]"
  have a1: "forceAttrs ?w (VAttrs ?attrs) = Inr ?attrs"
    by (simp add: test_world_def)
  have a2: "forceAttrs ?w (VAttrs [(''file'', 1, VPath ''/tmp/test/plain.txt.age'')]) =
      Inr (filter (\<lambda>(n, apos, v). n \<noteq> ''hash'') ?attrs)"
    by (simp add: test_world_def)
  have a3: "\<forall>apos v. (''hash'', apos, v) \<in> set ?attrs \<longrightarrow> forceStringNoCtx ?w v = Inr []"
    by (simp add: test_world_def)
  have p: "parseAgeAttrs ?w 7 (VAttrs [(''file'', 1, VPath ''/tmp/test/plain.txt.age'')])
      ''builtins.readAge'' = Inr \<lparr>age_file = ''/tmp/test/plain.txt.age'', age_hash = None\<rparr>"
    by (simp add: parseAgeAttrs_def test_world_def)
  have r: \<open>prim_readAge ?w empty_state 7
      (VAttrs [(''file'', 1, VPath ''/tmp/test/plain.txt.age'')]) =
     (Inl (EvalError 7
        (''builtins.readAge requires 'hash' in pure evaluation mode. ''
           @ ''Run with '--impure' for first-time decryption, ''
           @ ''then add the printed hash to your expression.'')), empty_state)\<close>
    unfolding prim_readAge_def p by (simp add: resolveAge_def)
  from empty_hash_is_no_hash[OF a1 a2 a3, of 7 "''builtins.readAge''" empty_state]
  show ?thesis
    using p r by simp
qed

end
